theory Spec2Isabelle
  imports Complex_Main
begin

section \<open>NACA 4-digit airfoil generator (naca4.py)\<close>

text \<open>
  The program is one NumPy function, \<^verbatim>\<open>naca4(m, p, t, c, num_points)\<close>. Its parameters
  \<open>m\<close>, \<open>p\<close>, \<open>t\<close>, \<open>c\<close> are Python floats and \<open>num_points\<close> is a Python int; the three
  results are NumPy arrays of float64.

  Numbers. A float64 is modelled as an exact real or one of the non-finite values \<open>+inf\<close>,
  \<open>-inf\<close>, \<open>nan\<close>, which follow IEEE 754. Rounding inside the range of the finite floats and
  the sign of zero are not modelled. The parameters are finite floats, given as reals.

  Array operations work on elements: a division by zero yields \<open>inf\<close> or \<open>nan\<close> and a
  warning, never an exception, and arithmetic on finite elements is exact.

  Operations on two Python scalars (lines 33 to 38) stay in the float range: a product,
  difference or quotient beyond the largest float is \<open>inf\<close>, a division by zero raises
  \<^verbatim>\<open>ZeroDivisionError\<close>, and a power \<^verbatim>\<open>a ** k\<close> beyond the largest float raises
  \<^verbatim>\<open>OverflowError\<close>, while one below the smallest float is \<open>0.0\<close>.
  The scalar factor \<open>(t / 0.20) * c\<close> of line 27 is taken exactly: the theorems that need
  it to be the program's value assume that it is a finite float.
\<close>

subsection \<open>float64 values\<close>

datatype float64 = Fin real | PInf | NInf | NaN

fun f_neg :: "float64 \<Rightarrow> float64" where
  "f_neg (Fin a) = Fin (- a)"
| "f_neg PInf = NInf"
| "f_neg NInf = PInf"
| "f_neg NaN = NaN"

fun f_add :: "float64 \<Rightarrow> float64 \<Rightarrow> float64" where
  "f_add (Fin a) (Fin b) = Fin (a + b)"
| "f_add NaN _ = NaN"
| "f_add _ NaN = NaN"
| "f_add PInf NInf = NaN"
| "f_add NInf PInf = NaN"
| "f_add PInf _ = PInf"
| "f_add _ PInf = PInf"
| "f_add NInf _ = NInf"
| "f_add _ NInf = NInf"

definition f_sub :: "float64 \<Rightarrow> float64 \<Rightarrow> float64" where
  "f_sub a b = f_add a (f_neg b)"

fun f_mul :: "float64 \<Rightarrow> float64 \<Rightarrow> float64" where
  "f_mul (Fin a) (Fin b) = Fin (a * b)"
| "f_mul NaN _ = NaN"
| "f_mul _ NaN = NaN"
| "f_mul PInf (Fin b) = (if b = 0 then NaN else if 0 < b then PInf else NInf)"
| "f_mul NInf (Fin b) = (if b = 0 then NaN else if 0 < b then NInf else PInf)"
| "f_mul (Fin a) PInf = (if a = 0 then NaN else if 0 < a then PInf else NInf)"
| "f_mul (Fin a) NInf = (if a = 0 then NaN else if 0 < a then NInf else PInf)"
| "f_mul PInf PInf = PInf"
| "f_mul PInf NInf = NInf"
| "f_mul NInf PInf = NInf"
| "f_mul NInf NInf = PInf"

fun f_div :: "float64 \<Rightarrow> float64 \<Rightarrow> float64" where
  "f_div (Fin a) (Fin b) =
     (if b = 0 then (if a = 0 then NaN else if 0 < a then PInf else NInf)
      else Fin (a / b))"
| "f_div NaN _ = NaN"
| "f_div _ NaN = NaN"
| "f_div (Fin a) PInf = Fin 0"
| "f_div (Fin a) NInf = Fin 0"
| "f_div PInf (Fin b) = (if 0 \<le> b then PInf else NInf)"
| "f_div NInf (Fin b) = (if 0 \<le> b then NInf else PInf)"
| "f_div PInf PInf = NaN"
| "f_div PInf NInf = NaN"
| "f_div NInf PInf = NaN"
| "f_div NInf NInf = NaN"

text \<open>\<^verbatim>\<open>a ** k\<close> for the integer exponents the program uses (2, 3 and 4).\<close>

fun f_pow :: "float64 \<Rightarrow> nat \<Rightarrow> float64" where
  "f_pow (Fin a) k = Fin (a ^ k)"
| "f_pow NaN k = (if k = 0 then Fin 1 else NaN)"
| "f_pow PInf k = (if k = 0 then Fin 1 else PInf)"
| "f_pow NInf k = (if k = 0 then Fin 1 else if even k then PInf else NInf)"

fun f_sqrt :: "float64 \<Rightarrow> float64" where
  "f_sqrt (Fin a) = (if a < 0 then NaN else Fin (sqrt a))"
| "f_sqrt PInf = PInf"
| "f_sqrt NInf = NaN"
| "f_sqrt NaN = NaN"

fun f_arctan :: "float64 \<Rightarrow> float64" where
  "f_arctan (Fin a) = Fin (arctan a)"
| "f_arctan PInf = Fin (pi / 2)"
| "f_arctan NInf = Fin (- pi / 2)"
| "f_arctan NaN = NaN"

fun f_cos :: "float64 \<Rightarrow> float64" where
  "f_cos (Fin a) = Fin (cos a)"
| "f_cos PInf = NaN"
| "f_cos NInf = NaN"
| "f_cos NaN = NaN"

text \<open>The comparison \<^verbatim>\<open><=\<close>: false whenever an operand is \<open>nan\<close>.\<close>

fun f_le :: "float64 \<Rightarrow> float64 \<Rightarrow> bool" where
  "f_le (Fin a) (Fin b) = (a \<le> b)"
| "f_le NaN _ = False"
| "f_le _ NaN = False"
| "f_le NInf _ = True"
| "f_le _ PInf = True"
| "f_le PInf _ = False"
| "f_le _ NInf = False"

text \<open>The comparison \<^verbatim>\<open>==\<close>: false whenever an operand is \<open>nan\<close>.\<close>

fun f_eq :: "float64 \<Rightarrow> float64 \<Rightarrow> bool" where
  "f_eq (Fin a) (Fin b) = (a = b)"
| "f_eq PInf PInf = True"
| "f_eq NInf NInf = True"
| "f_eq _ _ = False"

subsection \<open>Python and NumPy operations\<close>

datatype error = ZeroDivisionError | ValueError | OverflowError

text \<open>
  The range of the finite floats: a real of magnitude \<open>dbl_overflow\<close> or more rounds to an
  infinity, and one of magnitude \<open>dbl_underflow\<close> or less rounds to zero.
\<close>

definition dbl_overflow :: real where
  "dbl_overflow = 2 ^ 1024 - 2 ^ 970"

definition dbl_underflow :: real where
  "dbl_underflow = 1 / 2 ^ 1075"

text \<open>The float of an exact result.\<close>

definition py_float :: "real \<Rightarrow> float64" where
  "py_float r =
     (if dbl_overflow \<le> r then PInf else if r \<le> - dbl_overflow then NInf else Fin r)"

fun f_round :: "float64 \<Rightarrow> float64" where
  "f_round (Fin r) = py_float r"
| "f_round PInf = PInf"
| "f_round NInf = NInf"
| "f_round NaN = NaN"

text \<open>\<^verbatim>\<open>a * b\<close> and \<^verbatim>\<open>a - b\<close> on two Python floats.\<close>

definition py_mul :: "float64 \<Rightarrow> float64 \<Rightarrow> float64" where
  "py_mul a b = f_round (f_mul a b)"

definition py_sub :: "float64 \<Rightarrow> float64 \<Rightarrow> float64" where
  "py_sub a b = f_round (f_sub a b)"

text \<open>
  \<^verbatim>\<open>a / b\<close> on two Python floats: \<open>float_div\<close> is the quotient, and the operation raises
  on a zero divisor.
\<close>

definition float_div :: "float64 \<Rightarrow> float64 \<Rightarrow> float64" where
  "float_div a b = f_round (f_div a b)"

definition py_truediv :: "float64 \<Rightarrow> float64 \<Rightarrow> error + float64" where
  "py_truediv a b = (if b = Fin 0 then Inl ZeroDivisionError else Inr (float_div a b))"

text \<open>
  \<^verbatim>\<open>a ** k\<close> on a Python float and a positive int: \<open>float_pow\<close> is the power, \<open>0.0\<close> when
  it underflows, and the operation raises when a finite base overflows.
\<close>

definition float_pow :: "float64 \<Rightarrow> nat \<Rightarrow> float64" where
  "float_pow a k =
     (case a of
        Fin r \<Rightarrow> (if \<bar>r ^ k\<bar> \<le> dbl_underflow then Fin 0 else py_float (r ^ k))
      | _ \<Rightarrow> f_pow a k)"

definition py_pow :: "float64 \<Rightarrow> nat \<Rightarrow> error + float64" where
  "py_pow a k =
     (case a of
        Fin r \<Rightarrow> (if dbl_overflow \<le> \<bar>r ^ k\<bar> then Inl OverflowError
                  else Inr (float_pow a k))
      | _ \<Rightarrow> Inr (float_pow a k))"

text \<open>
  \<^verbatim>\<open>np.linspace(start, stop, num)\<close> is library code: \<open>num\<close> evenly spaced samples over
  \<open>[start, stop]\<close>, both endpoints included, sample \<open>i\<close> being \<open>start + i * step\<close> with
  \<open>step = (stop - start) / (num - 1)\<close>; a single sample is \<open>start\<close>, zero samples give the
  empty array, and a negative \<open>num\<close> raises \<^verbatim>\<open>ValueError\<close>.
\<close>

definition np_linspace :: "real \<Rightarrow> real \<Rightarrow> int \<Rightarrow> error + float64 list" where
  "np_linspace start stop num =
     (if num < 0 then Inl ValueError
      else Inr (map (\<lambda>i. Fin (start + real i * ((stop - start) / real_of_int (num - 1))))
                  [0 ..< nat num]))"

text \<open>Elementwise operations between a Python float and an array.\<close>

definition np_smul :: "float64 \<Rightarrow> float64 list \<Rightarrow> float64 list" where
  "np_smul k x = map (\<lambda>v. f_mul k v) x"

definition np_sadd :: "float64 \<Rightarrow> float64 list \<Rightarrow> float64 list" where
  "np_sadd k x = map (\<lambda>v. f_add k v) x"

definition np_ssub :: "float64 \<Rightarrow> float64 list \<Rightarrow> float64 list" where
  "np_ssub k x = map (\<lambda>v. f_sub k v) x"

definition np_divs :: "float64 list \<Rightarrow> real \<Rightarrow> float64 list" where
  "np_divs x k = map (\<lambda>v. f_div v (Fin k)) x"

definition np_les :: "float64 list \<Rightarrow> float64 \<Rightarrow> bool list" where
  "np_les x k = map (\<lambda>v. f_le v k) x"

definition np_power :: "float64 list \<Rightarrow> nat \<Rightarrow> float64 list" where
  "np_power x k = map (\<lambda>v. f_pow v k) x"

text \<open>Elementwise operations on arrays (of one shape throughout the program).\<close>

definition np_add :: "float64 list \<Rightarrow> float64 list \<Rightarrow> float64 list" where
  "np_add x y = map2 f_add x y"

definition np_sub :: "float64 list \<Rightarrow> float64 list \<Rightarrow> float64 list" where
  "np_sub x y = map2 f_sub x y"

definition np_mul :: "float64 list \<Rightarrow> float64 list \<Rightarrow> float64 list" where
  "np_mul x y = map2 f_mul x y"

definition np_sqrt :: "float64 list \<Rightarrow> float64 list" where
  "np_sqrt x = map f_sqrt x"

definition np_arctan :: "float64 list \<Rightarrow> float64 list" where
  "np_arctan x = map f_arctan x"

definition np_cos :: "float64 list \<Rightarrow> float64 list" where
  "np_cos x = map f_cos x"

definition np_zeros_like :: "float64 list \<Rightarrow> float64 list" where
  "np_zeros_like x = map (\<lambda>_. Fin 0) x"

text \<open>\<^verbatim>\<open>np.where(cond, a, b)\<close>: both arrays exist in full before the selection.\<close>

definition np_where :: "bool list \<Rightarrow> float64 list \<Rightarrow> float64 list \<Rightarrow> float64 list" where
  "np_where cond a b = map (\<lambda>(s, u, v). if s then u else v) (zip cond (zip a b))"

subsection \<open>The generator\<close>

text \<open>Line 27, the thickness distribution.\<close>

definition naca4_yt :: "real \<Rightarrow> real \<Rightarrow> float64 list \<Rightarrow> float64 list" where
  "naca4_yt t c x =
     np_smul (Fin ((t / 0.20) * c))
       (np_sub
         (np_add
           (np_sub
             (np_sub (np_smul (Fin 0.2969) (np_sqrt (np_divs x c)))
                     (np_smul (Fin 0.1260) (np_divs x c)))
             (np_smul (Fin 0.3516) (np_power (np_divs x c) 2)))
           (np_smul (Fin 0.2843) (np_power (np_divs x c) 3)))
         (np_smul (Fin 0.1015) (np_power (np_divs x c) 4)))"

text \<open>
  Lines 34 and 35, the two arrays handed to the first \<^verbatim>\<open>np.where\<close>. In each the scalar
  quotient is evaluated first, the power before the division.
\<close>

definition yc_fore :: "real \<Rightarrow> real \<Rightarrow> real \<Rightarrow> float64 list \<Rightarrow> error + float64 list" where
  "yc_fore m p c x =
     (case py_pow (Fin p) 2 of Inl e \<Rightarrow> Inl e | Inr q \<Rightarrow>
      (case py_truediv (Fin m) q of Inl e \<Rightarrow> Inl e | Inr k \<Rightarrow>
         Inr (np_smul k (np_sub (np_smul (py_mul (Fin 2) (Fin p)) (np_divs x c))
                                (np_power (np_divs x c) 2)))))"

definition yc_aft :: "real \<Rightarrow> real \<Rightarrow> real \<Rightarrow> float64 list \<Rightarrow> error + float64 list" where
  "yc_aft m p c x =
     (case py_pow (py_sub (Fin 1) (Fin p)) 2 of Inl e \<Rightarrow> Inl e | Inr q \<Rightarrow>
      (case py_truediv (Fin m) q of Inl e \<Rightarrow> Inl e | Inr k \<Rightarrow>
         Inr (np_smul k
                (np_sub (np_sadd (py_sub (Fin 1) (py_mul (Fin 2) (Fin p)))
                                 (np_smul (py_mul (Fin 2) (Fin p)) (np_divs x c)))
                        (np_power (np_divs x c) 2)))))"

text \<open>Lines 37 and 38, the two arrays handed to the second \<^verbatim>\<open>np.where\<close>.\<close>

definition dyc_fore :: "real \<Rightarrow> real \<Rightarrow> real \<Rightarrow> float64 list \<Rightarrow> error + float64 list" where
  "dyc_fore m p c x =
     (case py_pow (Fin p) 2 of Inl e \<Rightarrow> Inl e | Inr q \<Rightarrow>
      (case py_truediv (py_mul (Fin 2) (Fin m)) q of Inl e \<Rightarrow> Inl e | Inr k \<Rightarrow>
         Inr (np_smul k (np_ssub (Fin p) (np_divs x c)))))"

definition dyc_aft :: "real \<Rightarrow> real \<Rightarrow> real \<Rightarrow> float64 list \<Rightarrow> error + float64 list" where
  "dyc_aft m p c x =
     (case py_pow (py_sub (Fin 1) (Fin p)) 2 of Inl e \<Rightarrow> Inl e | Inr q \<Rightarrow>
      (case py_truediv (py_mul (Fin 2) (Fin m)) q of Inl e \<Rightarrow> Inl e | Inr k \<Rightarrow>
         Inr (np_smul k (np_ssub (Fin p) (np_divs x c)))))"

text \<open>
  Lines 33 to 38, the \<^verbatim>\<open>else\<close> branch: the arguments of each \<^verbatim>\<open>np.where\<close> are evaluated
  left to right before the call, so an exception in either array ends the function.
\<close>

definition camber_general ::
  "real \<Rightarrow> real \<Rightarrow> real \<Rightarrow> float64 list \<Rightarrow> error + (float64 list \<times> float64 list)" where
  "camber_general m p c x =
     (case yc_fore m p c x of Inl e \<Rightarrow> Inl e | Inr a \<Rightarrow>
      (case yc_aft m p c x of Inl e \<Rightarrow> Inl e | Inr b \<Rightarrow>
       (case dyc_fore m p c x of Inl e \<Rightarrow> Inl e | Inr a' \<Rightarrow>
        (case dyc_aft m p c x of Inl e \<Rightarrow> Inl e | Inr b' \<Rightarrow>
           Inr (np_where (np_les x (py_mul (Fin p) (Fin c))) a b,
                np_where (np_les x (py_mul (Fin p) (Fin c))) a' b')))))"

text \<open>Lines 29 to 38: the camber line \<open>yc\<close> and its slope \<open>dyc_dx\<close>.\<close>

definition naca4_camber ::
  "real \<Rightarrow> real \<Rightarrow> real \<Rightarrow> float64 list \<Rightarrow> error + (float64 list \<times> float64 list)" where
  "naca4_camber m p c x =
     (if p = 0 then Inr (np_zeros_like x, np_zeros_like x)
      else camber_general m p c x)"

text \<open>Lines 40 to 43: the two surfaces from \<open>yc\<close>, \<open>yt\<close> and \<open>dyc_dx\<close>.\<close>

definition naca4_surfaces ::
  "float64 list \<Rightarrow> float64 list \<Rightarrow> float64 list \<Rightarrow> float64 list \<times> float64 list" where
  "naca4_surfaces yc yt dyc_dx =
     (let theta = np_arctan dyc_dx
      in (np_add yc (np_mul yt (np_cos theta)),
          np_sub yc (np_mul yt (np_cos theta))))"

text \<open>The function \<^verbatim>\<open>naca4\<close>; the result is \<open>(x, y_upper, y_lower)\<close>.\<close>

definition naca4 ::
  "real \<Rightarrow> real \<Rightarrow> real \<Rightarrow> real \<Rightarrow> int
     \<Rightarrow> error + (float64 list \<times> float64 list \<times> float64 list)" where
  "naca4 m p t c num_points =
     (case np_linspace 0 c num_points of
        Inl e \<Rightarrow> Inl e
      | Inr x \<Rightarrow>
         (let yt = naca4_yt t c x
          in case naca4_camber m p c x of
               Inl e \<Rightarrow> Inl e
             | Inr (yc, dyc_dx) \<Rightarrow>
                 (let (y_upper, y_lower) = naca4_surfaces yc yt dyc_dx
                  in Inr (x, y_upper, y_lower))))"


subsection \<open>The specification's formulas, station by station\<close>

text \<open>
  The specification gives the algorithm for one station \<open>x\<close> at a time. The definitions below
  follow its wording, in float arithmetic; the theorems compare them with the array program
  above.
\<close>

definition spec_yt :: "real \<Rightarrow> real \<Rightarrow> float64 \<Rightarrow> float64" where
  "spec_yt t c x =
     (let u = f_div x (Fin c)
      in f_mul (Fin ((t / 0.20) * c))
           (f_sub
             (f_add
               (f_sub
                 (f_sub (f_mul (Fin 0.2969) (f_sqrt u)) (f_mul (Fin 0.1260) u))
                 (f_mul (Fin 0.3516) (f_pow u 2)))
               (f_mul (Fin 0.2843) (f_pow u 3)))
             (f_mul (Fin 0.1015) (f_pow u 4))))"

text \<open>
  \<open>yc = (m / p\<^sup>2) * (2 * p * (x / c) - (x / c)\<^sup>2)\<close> for \<open>x \<le> p * c\<close>, and
  \<open>yc = (m / (1 - p)\<^sup>2) * ((1 - 2 * p) + 2 * p * (x / c) - (x / c)\<^sup>2)\<close> otherwise.
\<close>

definition spec_yc :: "real \<Rightarrow> real \<Rightarrow> real \<Rightarrow> float64 \<Rightarrow> float64" where
  "spec_yc m p c x =
     (let u = f_div x (Fin c); two_p = py_mul (Fin 2) (Fin p)
      in if f_le x (py_mul (Fin p) (Fin c))
         then f_mul (float_div (Fin m) (float_pow (Fin p) 2))
                (f_sub (f_mul two_p u) (f_pow u 2))
         else f_mul (float_div (Fin m) (float_pow (py_sub (Fin 1) (Fin p)) 2))
                (f_sub (f_add (py_sub (Fin 1) two_p) (f_mul two_p u)) (f_pow u 2)))"

text \<open>
  \<open>dyc/dx = (2 * m / p\<^sup>2) * (p - x / c)\<close> for \<open>x \<le> p * c\<close>, and
  \<open>dyc/dx = (2 * m / (1 - p)\<^sup>2) * (p - x / c)\<close> otherwise.
\<close>

definition spec_dyc :: "real \<Rightarrow> real \<Rightarrow> real \<Rightarrow> float64 \<Rightarrow> float64" where
  "spec_dyc m p c x =
     (let u = f_div x (Fin c); two_m = py_mul (Fin 2) (Fin m)
      in if f_le x (py_mul (Fin p) (Fin c))
         then f_mul (float_div two_m (float_pow (Fin p) 2)) (f_sub (Fin p) u)
         else f_mul (float_div two_m (float_pow (py_sub (Fin 1) (Fin p)) 2))
                (f_sub (Fin p) u))"

definition spec_camber :: "real \<Rightarrow> real \<Rightarrow> real \<Rightarrow> float64 \<Rightarrow> float64 \<times> float64" where
  "spec_camber m p c x =
     (if p = 0 then (Fin 0, Fin 0) else (spec_yc m p c x, spec_dyc m p c x))"

definition spec_upper :: "real \<Rightarrow> real \<Rightarrow> real \<Rightarrow> real \<Rightarrow> float64 \<Rightarrow> float64" where
  "spec_upper m p t c x =
     (let (yc, dyc) = spec_camber m p c x; theta = f_arctan dyc
      in f_add yc (f_mul (spec_yt t c x) (f_cos theta)))"

definition spec_lower :: "real \<Rightarrow> real \<Rightarrow> real \<Rightarrow> real \<Rightarrow> float64 \<Rightarrow> float64" where
  "spec_lower m p t c x =
     (let (yc, dyc) = spec_camber m p c x; theta = f_arctan dyc
      in f_sub yc (f_mul (spec_yt t c x) (f_cos theta)))"

text \<open>The stations \<open>x_i = i/(n-1) * c\<close> for \<open>i\<close> from 0 to \<open>n - 1\<close>.\<close>

definition spec_stations :: "real \<Rightarrow> int \<Rightarrow> float64 list" where
  "spec_stations c n = map (\<lambda>i. Fin (real i / (real_of_int n - 1) * c)) [0 ..< nat n]"

text \<open>The bracket of the thickness formula over the reals, as a function of \<open>u = x/c\<close>.\<close>

definition thickness_poly :: "real \<Rightarrow> real" where
  "thickness_poly u =
     0.2969 * sqrt u - 0.1260 * u - 0.3516 * u ^ 2 + 0.2843 * u ^ 3 - 0.1015 * u ^ 4"

subsection \<open>Calls whose scalars stay in the float range\<close>

text \<open>
  \<^verbatim>\<open>p**2\<close> and \<^verbatim>\<open>(1 - p)**2\<close> are floats other than \<open>0.0\<close>: neither power underflows to
  zero, and neither overflows.
\<close>

definition camber_powers_ok :: "real \<Rightarrow> bool" where
  "camber_powers_ok p \<longleftrightarrow>
     dbl_underflow < p ^ 2 \<and> p ^ 2 < dbl_overflow
   \<and> dbl_underflow < (1 - p) ^ 2 \<and> (1 - p) ^ 2 < dbl_overflow"

text \<open>
  Moreover \<^verbatim>\<open>2 * m\<close>, \<^verbatim>\<open>p * c\<close> and the coefficients \<^verbatim>\<open>2 * m / p**2\<close> and
  \<^verbatim>\<open>2 * m / (1 - p)**2\<close> are finite, and with them \<^verbatim>\<open>m / p**2\<close> and \<^verbatim>\<open>m / (1 - p)**2\<close>.
\<close>

definition camber_scalars_finite :: "real \<Rightarrow> real \<Rightarrow> real \<Rightarrow> bool" where
  "camber_scalars_finite m p c \<longleftrightarrow>
     camber_powers_ok p
   \<and> \<bar>2 * m\<bar> < dbl_overflow
   \<and> \<bar>2 * m / p ^ 2\<bar> < dbl_overflow
   \<and> \<bar>2 * m / (1 - p) ^ 2\<bar> < dbl_overflow
   \<and> \<bar>p * c\<bar> < dbl_overflow"

text \<open>The scalars \<^verbatim>\<open>t / 0.20\<close> and \<^verbatim>\<open>(t / 0.20) * c\<close> of line 27 are finite.\<close>

definition thickness_factor_finite :: "real \<Rightarrow> real \<Rightarrow> bool" where
  "thickness_factor_finite t c \<longleftrightarrow>
     \<bar>t / 0.20\<bar> < dbl_overflow \<and> \<bar>(t / 0.20) * c\<bar> < dbl_overflow"

section \<open>Properties\<close>

subsection \<open>The float range\<close>

lemma dbl_overflow_bounds: "2 ^ 1023 \<le> dbl_overflow" "dbl_overflow < 2 ^ 1024"
  by (simp_all add: dbl_overflow_def)

lemma dbl_underflow_bounds: "0 < dbl_underflow" "dbl_underflow < 1 / 2 ^ 1074"
  by (simp_all add: dbl_underflow_def)

lemma py_float_Fin: "\<bar>r\<bar> < dbl_overflow \<Longrightarrow> py_float r = Fin r"
  by (auto simp add: py_float_def)

lemma square_below_overflow:
  assumes "r ^ 2 < dbl_overflow"
  shows "\<bar>r\<bar> < 2 ^ 512"
proof -
  have "r ^ 2 < (2 ^ 512) ^ 2"
    using assms dbl_overflow_bounds(2) by (simp add: power_mult [symmetric])
  then have "\<bar>r\<bar> ^ 2 < (2 ^ 512) ^ 2" by simp
  then show ?thesis by (rule power2_less_imp_less) simp
qed

lemma moderate_below_overflow:
  assumes "\<bar>r\<bar> \<le> 2 ^ 520"
  shows "\<bar>r\<bar> < dbl_overflow"
proof -
  have "(2::real) ^ 520 < 2 ^ 1023" by (rule power_strict_increasing) simp_all
  with assms dbl_overflow_bounds(1) show ?thesis by linarith
qed

lemma float_pow_in_range:
  assumes "dbl_underflow < r ^ 2" "r ^ 2 < dbl_overflow"
  shows "float_pow (Fin r) 2 = Fin (r ^ 2)" "py_pow (Fin r) 2 = Inr (Fin (r ^ 2))"
proof -
  have abs: "\<bar>r ^ 2\<bar> = r ^ 2" by simp
  show f: "float_pow (Fin r) 2 = Fin (r ^ 2)"
    using assms by (simp add: float_pow_def py_float_Fin abs del: abs_power2)
  show "py_pow (Fin r) 2 = Inr (Fin (r ^ 2))"
    using assms f by (simp add: py_pow_def abs del: abs_power2)
qed

lemma py_pow_Inr: "py_pow a k = Inr q \<Longrightarrow> q = float_pow a k"
  by (auto simp add: py_pow_def split: float64.splits if_splits)

lemma py_truediv_Inr: "py_truediv a b = Inr k \<Longrightarrow> k = float_div a b"
  by (auto simp add: py_truediv_def split: if_splits)


subsection \<open>Array operations act station by station\<close>

lemma map2_same: "map2 f (map g xs) (map h xs) = map (\<lambda>v. f (g v) (h v)) xs"
  by (induction xs) simp_all

lemma where_same:
  "np_where (map s xs) (map g xs) (map h xs) = map (\<lambda>v. if s v then g v else h v) xs"
  unfolding np_where_def by (induction xs) simp_all

lemmas np_defs = np_smul_def np_sadd_def np_ssub_def np_divs_def np_les_def np_power_def
  np_add_def np_sub_def np_mul_def np_sqrt_def np_arctan_def np_cos_def np_zeros_like_def

lemma naca4_yt_map: "naca4_yt t c x = map (spec_yt t c) x"
  by (simp add: naca4_yt_def spec_yt_def np_defs map2_same Let_def)

text \<open>Whenever the four arrays of lines 34 to 38 exist, they are the rule at each station.\<close>

lemma yc_fore_Inr:
  assumes "yc_fore m p c x = Inr a"
  shows "a = map (\<lambda>v. f_mul (float_div (Fin m) (float_pow (Fin p) 2))
                      (f_sub (f_mul (py_mul (Fin 2) (Fin p)) (f_div v (Fin c)))
                             (f_pow (f_div v (Fin c)) 2))) x"
  using assms
  by (auto simp add: yc_fore_def np_defs map2_same split: sum.splits
      dest!: py_pow_Inr py_truediv_Inr)

lemma yc_aft_Inr:
  assumes "yc_aft m p c x = Inr b"
  shows "b = map (\<lambda>v. f_mul (float_div (Fin m) (float_pow (py_sub (Fin 1) (Fin p)) 2))
                      (f_sub (f_add (py_sub (Fin 1) (py_mul (Fin 2) (Fin p)))
                                    (f_mul (py_mul (Fin 2) (Fin p)) (f_div v (Fin c))))
                             (f_pow (f_div v (Fin c)) 2))) x"
  using assms
  by (auto simp add: yc_aft_def np_defs map2_same split: sum.splits
      dest!: py_pow_Inr py_truediv_Inr)

lemma dyc_fore_Inr:
  assumes "dyc_fore m p c x = Inr a"
  shows "a = map (\<lambda>v. f_mul (float_div (py_mul (Fin 2) (Fin m)) (float_pow (Fin p) 2))
                      (f_sub (Fin p) (f_div v (Fin c)))) x"
  using assms
  by (auto simp add: dyc_fore_def np_defs map2_same split: sum.splits
      dest!: py_pow_Inr py_truediv_Inr)

lemma dyc_aft_Inr:
  assumes "dyc_aft m p c x = Inr b"
  shows "b = map (\<lambda>v. f_mul (float_div (py_mul (Fin 2) (Fin m))
                             (float_pow (py_sub (Fin 1) (Fin p)) 2))
                      (f_sub (Fin p) (f_div v (Fin c)))) x"
  using assms
  by (auto simp add: dyc_aft_def np_defs map2_same split: sum.splits
      dest!: py_pow_Inr py_truediv_Inr)

lemma camber_general_Inr:
  assumes "camber_general m p c x = Inr r"
  shows "r = (map (spec_yc m p c) x, map (spec_dyc m p c) x)"
proof -
  from assms obtain a b a' b' where
    a: "yc_fore m p c x = Inr a" and b: "yc_aft m p c x = Inr b" and
    a': "dyc_fore m p c x = Inr a'" and b': "dyc_aft m p c x = Inr b'" and
    r: "r = (np_where (np_les x (py_mul (Fin p) (Fin c))) a b,
             np_where (np_les x (py_mul (Fin p) (Fin c))) a' b')"
    by (auto simp add: camber_general_def split: sum.splits)
  show ?thesis
    unfolding r yc_fore_Inr [OF a] yc_aft_Inr [OF b] dyc_fore_Inr [OF a'] dyc_aft_Inr [OF b']
    by (simp add: np_les_def where_same spec_yc_def spec_dyc_def Let_def)
qed

text \<open>Whether lines 33 to 38 raise does not depend on the stations.\<close>

lemma yc_fore_any: "yc_fore m p c x = Inr a \<Longrightarrow> \<exists>a'. yc_fore m p c x' = Inr a'"
  by (auto simp add: yc_fore_def split: sum.splits)

lemma yc_aft_any: "yc_aft m p c x = Inr a \<Longrightarrow> \<exists>a'. yc_aft m p c x' = Inr a'"
  by (auto simp add: yc_aft_def split: sum.splits)

lemma dyc_fore_any: "dyc_fore m p c x = Inr a \<Longrightarrow> \<exists>a'. dyc_fore m p c x' = Inr a'"
  by (auto simp add: dyc_fore_def split: sum.splits)

lemma dyc_aft_any: "dyc_aft m p c x = Inr a \<Longrightarrow> \<exists>a'. dyc_aft m p c x' = Inr a'"
  by (auto simp add: dyc_aft_def split: sum.splits)

lemma camber_general_any:
  assumes "camber_general m p c x = Inr r"
  shows "camber_general m p c x' = Inr (map (spec_yc m p c) x', map (spec_dyc m p c) x')"
proof -
  from assms obtain a b a' b' where
    "yc_fore m p c x = Inr a" "yc_aft m p c x = Inr b"
    "dyc_fore m p c x = Inr a'" "dyc_aft m p c x = Inr b'"
    by (auto simp add: camber_general_def split: sum.splits)
  then obtain u v u' v' where
    "yc_fore m p c x' = Inr u" "yc_aft m p c x' = Inr v"
    "dyc_fore m p c x' = Inr u'" "dyc_aft m p c x' = Inr v'"
    using yc_fore_any yc_aft_any dyc_fore_any dyc_aft_any by metis
  then have "\<exists>r'. camber_general m p c x' = Inr r'"
    by (simp add: camber_general_def)
  then show ?thesis using camber_general_Inr by blast
qed

text \<open>The scalars of lines 33 to 38 when the two powers stay in range.\<close>

lemma powers_ok_scalars:
  assumes "camber_powers_ok p"
  shows "py_pow (Fin p) 2 = Inr (Fin (p ^ 2))"
    and "float_pow (Fin p) 2 = Fin (p ^ 2)"
    and "py_sub (Fin 1) (Fin p) = Fin (1 - p)"
    and "py_pow (Fin (1 - p)) 2 = Inr (Fin ((1 - p) ^ 2))"
    and "float_pow (Fin (1 - p)) 2 = Fin ((1 - p) ^ 2)"
    and "py_mul (Fin 2) (Fin p) = Fin (2 * p)"
    and "py_sub (Fin 1) (Fin (2 * p)) = Fin (1 - 2 * p)"
    and "p \<noteq> 0" and "p \<noteq> 1"
proof -
  from assms have p: "dbl_underflow < p ^ 2" "p ^ 2 < dbl_overflow"
    and q: "dbl_underflow < (1 - p) ^ 2" "(1 - p) ^ 2 < dbl_overflow"
    by (simp_all add: camber_powers_ok_def)
  show "py_pow (Fin p) 2 = Inr (Fin (p ^ 2))" "float_pow (Fin p) 2 = Fin (p ^ 2)"
    using float_pow_in_range [OF p] by simp_all
  show "py_pow (Fin (1 - p)) 2 = Inr (Fin ((1 - p) ^ 2))"
    "float_pow (Fin (1 - p)) 2 = Fin ((1 - p) ^ 2)"
    using float_pow_in_range [OF q] by simp_all
  have ap: "\<bar>p\<bar> < 2 ^ 512" using p(2) by (rule square_below_overflow)
  have aq: "\<bar>1 - p\<bar> < 2 ^ 512" using q(2) by (rule square_below_overflow)
  have "\<bar>1 - p\<bar> < dbl_overflow" using aq by (intro moderate_below_overflow) simp
  then show "py_sub (Fin 1) (Fin p) = Fin (1 - p)"
    by (simp add: py_sub_def f_sub_def py_float_Fin)
  have "\<bar>2 * p\<bar> \<le> 2 ^ 520" using ap by (simp add: abs_mult)
  then have "\<bar>2 * p\<bar> < dbl_overflow" by (rule moderate_below_overflow)
  then show "py_mul (Fin 2) (Fin p) = Fin (2 * p)"
    by (simp add: py_mul_def py_float_Fin)
  have "\<bar>1 - 2 * p\<bar> \<le> 2 ^ 520" using ap by (simp add: abs_mult)
  then have "\<bar>1 - 2 * p\<bar> < dbl_overflow" by (rule moderate_below_overflow)
  then show "py_sub (Fin 1) (Fin (2 * p)) = Fin (1 - 2 * p)"
    by (simp add: py_sub_def f_sub_def py_float_Fin)
  show "p \<noteq> 0" using p(1) dbl_underflow_bounds(1) by auto
  show "p \<noteq> 1" using q(1) dbl_underflow_bounds(1) by auto
qed

lemma camber_general_powers_ok:
  assumes "camber_powers_ok p"
  shows "camber_general m p c x = Inr (map (spec_yc m p c) x, map (spec_dyc m p c) x)"
proof -
  note s = powers_ok_scalars [OF assms]
  have nz: "p ^ 2 \<noteq> 0" "(1 - p) ^ 2 \<noteq> 0" using s(8,9) by simp_all
  have "\<exists>r. camber_general m p c x = Inr r"
    using nz
    by (simp add: camber_general_def yc_fore_def yc_aft_def dyc_fore_def dyc_aft_def
        s(1,3,4) py_truediv_def del: power_eq_0_iff zero_eq_power2)
  then show ?thesis using camber_general_Inr by blast
qed

lemma camber_general_p_one: "camber_general m 1 c x = Inl ZeroDivisionError"
proof -
  have "py_pow (Fin 1) 2 = Inr (Fin 1)"
    using dbl_overflow_bounds(1) dbl_underflow_bounds(2)
    by (simp add: py_pow_def float_pow_def py_float_def)
  moreover have "py_pow (py_sub (Fin 1) (Fin 1)) 2 = Inr (Fin 0)"
    using dbl_overflow_bounds(1) dbl_underflow_bounds(1)
    by (simp add: py_pow_def float_pow_def py_float_def py_sub_def f_sub_def)
  ultimately show ?thesis
    by (simp add: camber_general_def yc_fore_def yc_aft_def py_truediv_def)
qed

lemma camber_general_p_zero: "camber_general m 0 c x = Inl ZeroDivisionError"
proof -
  have "py_pow (Fin 0) 2 = Inr (Fin 0)"
    using dbl_overflow_bounds(1) dbl_underflow_bounds(1)
    by (simp add: py_pow_def float_pow_def)
  then show ?thesis
    by (simp add: camber_general_def yc_fore_def py_truediv_def)
qed


lemma naca4_camber_Inr:
  assumes "naca4_camber m p c x = Inr r"
  shows "r = (map (\<lambda>v. fst (spec_camber m p c v)) x, map (\<lambda>v. snd (spec_camber m p c v)) x)"
proof (cases "p = 0")
  case True
  with assms show ?thesis
    by (auto simp add: naca4_camber_def spec_camber_def np_zeros_like_def)
next
  case False
  with assms have "camber_general m p c x = Inr r" by (simp add: naca4_camber_def)
  from camber_general_Inr [OF this] False show ?thesis by (simp add: spec_camber_def)
qed

lemma naca4_camber_any:
  assumes "naca4_camber m p c x = Inr r"
  shows "naca4_camber m p c x' =
           Inr (map (\<lambda>v. fst (spec_camber m p c v)) x', map (\<lambda>v. snd (spec_camber m p c v)) x')"
proof (cases "p = 0")
  case True
  then show ?thesis by (simp add: naca4_camber_def spec_camber_def np_zeros_like_def)
next
  case False
  with assms have "camber_general m p c x = Inr r" by (simp add: naca4_camber_def)
  from camber_general_any [OF this, of x'] False show ?thesis
    by (simp add: naca4_camber_def spec_camber_def)
qed

lemma naca4_camber_returns:
  assumes "p = 0 \<or> camber_powers_ok p"
  shows "naca4_camber m p c x =
           Inr (map (\<lambda>v. fst (spec_camber m p c v)) x, map (\<lambda>v. snd (spec_camber m p c v)) x)"
proof (cases "p = 0")
  case True
  then show ?thesis by (simp add: naca4_camber_def spec_camber_def np_zeros_like_def)
next
  case False
  with assms have "camber_powers_ok p" by simp
  from camber_general_powers_ok [OF this] False show ?thesis
    by (simp add: naca4_camber_def spec_camber_def)
qed

lemma naca4_camber_p_one: "naca4_camber m 1 c x = Inl ZeroDivisionError"
  by (simp add: naca4_camber_def camber_general_p_one)

lemma naca4_surfaces_map:
  "naca4_surfaces (map g x) (map h x) (map d x) =
     (map (\<lambda>v. f_add (g v) (f_mul (h v) (f_cos (f_arctan (d v))))) x,
      map (\<lambda>v. f_sub (g v) (f_mul (h v) (f_cos (f_arctan (d v))))) x)"
  by (simp add: naca4_surfaces_def np_defs map2_same Let_def)

lemma spec_upper_eq:
  "spec_upper m p t c v =
     f_add (fst (spec_camber m p c v))
       (f_mul (spec_yt t c v) (f_cos (f_arctan (snd (spec_camber m p c v)))))"
  by (simp add: spec_upper_def Let_def case_prod_unfold)

lemma spec_lower_eq:
  "spec_lower m p t c v =
     f_sub (fst (spec_camber m p c v))
       (f_mul (spec_yt t c v) (f_cos (f_arctan (snd (spec_camber m p c v)))))"
  by (simp add: spec_lower_def Let_def case_prod_unfold)

lemma np_linspace_stations:
  assumes "0 \<le> n"
  shows "np_linspace 0 c n = Inr (spec_stations c n)"
  using assms by (simp add: np_linspace_def spec_stations_def)

lemma np_linspace_negative: "n < 0 \<Longrightarrow> np_linspace a b n = Inl ValueError"
  by (simp add: np_linspace_def)

lemma naca4_stations:
  assumes "0 \<le> n" "p = 0 \<or> camber_powers_ok p"
  shows "naca4 m p t c n =
           Inr (spec_stations c n,
                map (spec_upper m p t c) (spec_stations c n),
                map (spec_lower m p t c) (spec_stations c n))"
  using assms(1)
  by (simp add: naca4_def np_linspace_stations naca4_yt_map naca4_camber_returns [OF assms(2)]
      naca4_surfaces_map spec_upper_eq spec_lower_eq Let_def)

lemma naca4_negative: "n < 0 \<Longrightarrow> naca4 m p t c n = Inl ValueError"
  by (simp add: naca4_def np_linspace_negative)

lemma naca4_p_one: "0 \<le> n \<Longrightarrow> naca4 m 1 t c n = Inl ZeroDivisionError"
  by (simp add: naca4_def np_linspace_stations naca4_camber_p_one Let_def)

lemma naca4_Inr_D:
  assumes "naca4 m p t c n = Inr (x, yu, yl)"
  shows "0 \<le> n" "x = spec_stations c n"
    "yu = map (spec_upper m p t c) x" "yl = map (spec_lower m p t c) x"
    "naca4_camber m p c x =
       Inr (map (\<lambda>v. fst (spec_camber m p c v)) x, map (\<lambda>v. snd (spec_camber m p c v)) x)"
proof -
  show n: "0 \<le> n"
  proof (rule ccontr)
    assume "\<not> 0 \<le> n"
    then have "naca4 m p t c n = Inl ValueError" by (simp add: naca4_negative)
    with assms show False by simp
  qed
  from assms n obtain r where
    cam: "naca4_camber m p c (spec_stations c n) = Inr r"
    by (auto simp add: naca4_def np_linspace_stations Let_def split: sum.splits)
  note shape = naca4_camber_any [OF cam, of "spec_stations c n"]
  have val: "naca4 m p t c n =
      Inr (spec_stations c n, map (spec_upper m p t c) (spec_stations c n),
           map (spec_lower m p t c) (spec_stations c n))"
    using n
    by (simp add: naca4_def np_linspace_stations Let_def shape naca4_yt_map
        naca4_surfaces_map spec_upper_eq spec_lower_eq)
  have res: "(x, yu, yl) =
      (spec_stations c n, map (spec_upper m p t c) (spec_stations c n),
       map (spec_lower m p t c) (spec_stations c n))"
    using trans [OF assms [symmetric] val] by (simp only: sum.inject)
  then show "x = spec_stations c n" by simp
  from res show "yu = map (spec_upper m p t c) x" "yl = map (spec_lower m p t c) x"
    by auto
  from res shape show "naca4_camber m p c x =
       Inr (map (\<lambda>v. fst (spec_camber m p c v)) x, map (\<lambda>v. snd (spec_camber m p c v)) x)"
    by auto
qed

lemma naca4_Inr_ex:
  assumes "0 \<le> n" "p = 0 \<or> camber_powers_ok p"
  shows "\<exists>x yu yl. naca4 m p t c n = Inr (x, yu, yl)"
  by (simp add: naca4_stations [OF assms])

subsection \<open>Facts about float64 values and stations\<close>

lemma f_add_zero_left: "f_add (Fin 0) v = v"
  by (cases v) simp_all

lemma f_sub_zero_left: "f_sub (Fin 0) v = f_neg v"
  by (cases v) (simp_all add: f_sub_def)

lemma f_neg_neg: "f_neg (f_neg v) = v"
  by (cases v) simp_all

lemma f_add_NaN_right: "f_add v NaN = NaN"
  by (cases v) simp_all

lemma f_mul_one_right: "f_mul v (Fin 1) = v"
  by (cases v) simp_all

lemma spec_yt_zero_chord: "spec_yt t 0 (Fin 0) = NaN"
  by (simp add: spec_yt_def f_sub_def)

lemma spec_upper_zero_chord: "spec_upper m p t 0 (Fin 0) = NaN"
  by (simp add: spec_upper_eq spec_yt_zero_chord f_add_NaN_right)

lemma spec_lower_zero_chord: "spec_lower m p t 0 (Fin 0) = NaN"
  by (simp add: spec_lower_eq spec_yt_zero_chord f_add_NaN_right f_sub_def)

lemma spec_stations_zero_chord: "spec_stations 0 n = replicate (nat n) (Fin 0)"
  by (simp add: spec_stations_def map_replicate_const)

lemma length_spec_stations: "length (spec_stations c n) = nat n"
  by (simp add: spec_stations_def)

lemma nth_spec_stations:
  "i < nat n \<Longrightarrow> spec_stations c n ! i = Fin (real i / (real_of_int n - 1) * c)"
  by (simp add: spec_stations_def)

text \<open>Moderate scalars are well inside the float range.\<close>

lemma moderate_above_underflow:
  assumes "1 / 2 ^ 520 \<le> r"
  shows "dbl_underflow < r"
proof -
  have "(2::real) ^ 520 < 2 ^ 1074" by (rule power_strict_increasing) simp_all
  then have "1 / (2::real) ^ 1074 < 1 / 2 ^ 520" by (simp add: field_simps)
  with assms dbl_underflow_bounds(2) show ?thesis by linarith
qed

lemma moderate_camber_powers_ok:
  assumes "1 / 2 ^ 260 \<le> \<bar>p\<bar>" "\<bar>p\<bar> \<le> 2 ^ 259"
    and "1 / 2 ^ 260 \<le> \<bar>1 - p\<bar>"
  shows "camber_powers_ok p"
proof -
  have sq: "(1 / 2 ^ 260) ^ 2 = 1 / (2::real) ^ 520" "((2::real) ^ 259) ^ 2 = 2 ^ 518"
    "((2::real) ^ 260) ^ 2 = 2 ^ 520"
    by (simp_all add: power_divide power_mult [symmetric])
  have "(1 / 2 ^ 260) ^ 2 \<le> \<bar>p\<bar> ^ 2" using assms(1) by (intro power_mono) simp_all
  then have p1: "dbl_underflow < p ^ 2" using sq(1) by (intro moderate_above_underflow) simp
  have "\<bar>p\<bar> ^ 2 \<le> (2 ^ 259) ^ 2" using assms(2) by (intro power_mono) simp_all
  then have "\<bar>p ^ 2\<bar> \<le> 2 ^ 520" using sq(2) power_increasing [of 518 520 "2::real"] by simp
  then have p2: "p ^ 2 < dbl_overflow" using moderate_below_overflow [of "p ^ 2"] by simp
  have "(1 / 2 ^ 260) ^ 2 \<le> \<bar>1 - p\<bar> ^ 2" using assms(3) by (intro power_mono) simp_all
  then have q1: "dbl_underflow < (1 - p) ^ 2"
    using sq(1) by (intro moderate_above_underflow) simp
  have "\<bar>1 - p\<bar> \<le> 2 ^ 260"
  proof -
    have "(2::real) ^ 259 + 1 \<le> 2 ^ 260" by simp
    with assms(2) show ?thesis by linarith
  qed
  then have "\<bar>1 - p\<bar> ^ 2 \<le> (2 ^ 260) ^ 2" by (intro power_mono) simp_all
  then have "\<bar>(1 - p) ^ 2\<bar> \<le> 2 ^ 520" using sq(3) by simp
  then have q2: "(1 - p) ^ 2 < dbl_overflow"
    using moderate_below_overflow [of "(1 - p) ^ 2"] by simp
  show ?thesis using p1 p2 q1 q2 by (simp add: camber_powers_ok_def)
qed

lemma camber_powers_ok_two_fifths: "camber_powers_ok (2 / 5)"
  by (rule moderate_camber_powers_ok) (simp_all add: field_simps)


subsection \<open>Failure semantics\<close>

lemma camber_general_underflow:
  assumes "p ^ 2 \<le> dbl_underflow"
  shows "camber_general m p c x = Inl ZeroDivisionError"
proof -
  have "dbl_underflow < dbl_overflow"
    using dbl_underflow_bounds(2) dbl_overflow_bounds(1)
    by (smt (verit) divide_le_eq_1_pos one_le_power zero_less_power)
  with assms have "py_pow (Fin p) 2 = Inr (Fin 0)"
    by (simp add: py_pow_def float_pow_def)
  then show ?thesis
    by (simp add: camber_general_def yc_fore_def py_truediv_def)
qed

lemma camber_general_overflow:
  assumes "dbl_overflow \<le> p ^ 2"
  shows "camber_general m p c x = Inl OverflowError"
  using assms by (simp add: camber_general_def yc_fore_def py_pow_def)



lemma naca4_underflow:
  assumes "0 \<le> n" "p \<noteq> 0" "p ^ 2 \<le> dbl_underflow"
  shows "naca4 m p t c n = Inl ZeroDivisionError"
  using assms(1,2)
  by (simp add: naca4_def np_linspace_stations naca4_camber_def
      camber_general_underflow [OF assms(3)] Let_def)

lemma naca4_overflow:
  assumes "0 \<le> n" "p \<noteq> 0" "dbl_overflow \<le> p ^ 2"
  shows "naca4 m p t c n = Inl OverflowError"
  using assms(1,2)
  by (simp add: naca4_def np_linspace_stations naca4_camber_def
      camber_general_overflow [OF assms(3)] Let_def)

lemma tiny_square_underflows: "(1 / 10 ^ 200 :: real) ^ 2 \<le> dbl_underflow"
  by (simp add: dbl_underflow_def power_divide)

lemma huge_square_overflows: "dbl_overflow \<le> (10 ^ 200 :: real) ^ 2"
  by (simp add: dbl_overflow_def)

text \<open>
  Claim C2, as amended. The function validates nothing, and it raises no error for any
  input with \<open>n \<ge> 0\<close> in which \<open>p = 0\<close> or the scalars \<^verbatim>\<open>p**2\<close> and \<^verbatim>\<open>(1 - p)**2\<close> are
  floats other than \<open>0.0\<close> (neither underflows to zero, neither overflows): the call returns
  three arrays of length \<open>n\<close>. A camber position outside \<open>[0, 1)\<close>, a zero chord and
  \<open>n < 2\<close> are among these inputs. A zero chord makes every ordinate \<open>nan\<close>; \<open>n = 0\<close> and
  \<open>n = 1\<close> give empty and singleton arrays.
\<close>

theorem naca4_returns_arrays:
  assumes "0 \<le> n" and "p = 0 \<or> camber_powers_ok p"
  shows "\<exists>x yu yl. naca4 m p t c n = Inr (x, yu, yl)
           \<and> length x = nat n \<and> length yu = nat n \<and> length yl = nat n
           \<and> (c = 0 \<longrightarrow> yu = replicate (nat n) NaN \<and> yl = replicate (nat n) NaN)"
  by (simp add: naca4_stations [OF assms] length_spec_stations spec_stations_zero_chord
      spec_upper_zero_chord spec_lower_zero_chord)

text \<open>The theorem at a zero chord, three stations.\<close>

theorem naca4_returns_arrays_witness:
  "\<exists>x. naca4 (1/50) (2/5) (3/25) 0 3 = Inr (x, [NaN, NaN, NaN], [NaN, NaN, NaN])"
  using naca4_returns_arrays [of 3 "2/5" "1/50" "3/25" 0] camber_powers_ok_two_fifths
  by (auto simp add: numeral_3_eq_3)

text \<open>
  The claim as stated fails. With \<open>p = 1\<close> the Python scalar division
  \<^verbatim>\<open>m / (1 - p)**2\<close> of line 35 raises \<^verbatim>\<open>ZeroDivisionError\<close>; a negative \<open>n\<close> makes
  \<^verbatim>\<open>np.linspace\<close> raise \<^verbatim>\<open>ValueError\<close>; with \<open>p = 1e-200\<close> the power \<^verbatim>\<open>p**2\<close> is \<open>0.0\<close>
  and \<^verbatim>\<open>m / p**2\<close> on line 34 raises \<^verbatim>\<open>ZeroDivisionError\<close>; with \<open>p = 1e200\<close> the power
  raises \<^verbatim>\<open>OverflowError\<close>.
\<close>

theorem naca4_raises_counterexample:
  "naca4 (1/50) 1 (3/25) 1 5 = Inl ZeroDivisionError
   \<and> naca4 (1/50) (2/5) (3/25) 1 (- 1) = Inl ValueError
   \<and> naca4 (1/50) (1 / 10 ^ 200) (3/25) 1 5 = Inl ZeroDivisionError
   \<and> naca4 (1/50) (10 ^ 200) (3/25) 1 5 = Inl OverflowError"
  using naca4_underflow [OF _ _ tiny_square_underflows, of 5 "1/50" "3/25" 1]
    naca4_overflow [OF _ _ huge_square_overflows, of 5 "1/50" "3/25" 1]
  by (simp add: naca4_p_one naca4_negative)

subsection \<open>The camber line\<close>

lemma abs_half_le:
  fixes a :: real
  assumes "\<bar>2 * a\<bar> < b"
  shows "\<bar>a\<bar> < b"
  using assms by (simp add: abs_mult)

lemma spec_camber_finite:
  assumes "camber_scalars_finite m p c" "c \<noteq> 0"
  shows "spec_yc m p c (Fin v) =
           Fin (if v \<le> p * c then (m / p ^ 2) * (2 * p * (v / c) - (v / c) ^ 2)
                else (m / (1 - p) ^ 2) * ((1 - 2 * p) + 2 * p * (v / c) - (v / c) ^ 2))"
    and "spec_dyc m p c (Fin v) =
           Fin (if v \<le> p * c then (2 * m / p ^ 2) * (p - v / c)
                else (2 * m / (1 - p) ^ 2) * (p - v / c))"
proof -
  from assms(1) have ok: "camber_powers_ok p"
    and m2: "\<bar>2 * m\<bar> < dbl_overflow"
    and k3: "\<bar>2 * m / p ^ 2\<bar> < dbl_overflow"
    and k4: "\<bar>2 * m / (1 - p) ^ 2\<bar> < dbl_overflow"
    and pc: "\<bar>p * c\<bar> < dbl_overflow"
    by (simp_all add: camber_scalars_finite_def)
  note s = powers_ok_scalars [OF ok]
  have nz: "p ^ 2 \<noteq> 0" "(1 - p) ^ 2 \<noteq> 0" using s(8,9) by simp_all
  have k1: "\<bar>m / p ^ 2\<bar> < dbl_overflow" using k3 abs_half_le [of "m / p ^ 2"] by simp
  have k2: "\<bar>m / (1 - p) ^ 2\<bar> < dbl_overflow"
    using k4 abs_half_le [of "m / (1 - p) ^ 2"] by simp
  have d1: "float_div (Fin m) (Fin (p ^ 2)) = Fin (m / p ^ 2)"
    using nz(1) k1 by (simp add: float_div_def py_float_Fin del: power_eq_0_iff zero_eq_power2)
  have d2: "float_div (Fin m) (Fin ((1 - p) ^ 2)) = Fin (m / (1 - p) ^ 2)"
    using nz(2) k2 by (simp add: float_div_def py_float_Fin del: power_eq_0_iff zero_eq_power2)
  have tm: "py_mul (Fin 2) (Fin m) = Fin (2 * m)"
    using m2 by (simp add: py_mul_def py_float_Fin)
  have d3: "float_div (Fin (2 * m)) (Fin (p ^ 2)) = Fin (2 * m / p ^ 2)"
    using nz(1) k3 by (simp add: float_div_def py_float_Fin del: power_eq_0_iff zero_eq_power2)
  have d4: "float_div (Fin (2 * m)) (Fin ((1 - p) ^ 2)) = Fin (2 * m / (1 - p) ^ 2)"
    using nz(2) k4 by (simp add: float_div_def py_float_Fin del: power_eq_0_iff zero_eq_power2)
  have mc: "py_mul (Fin p) (Fin c) = Fin (p * c)"
    using pc by (simp add: py_mul_def py_float_Fin)
  show "spec_yc m p c (Fin v) =
           Fin (if v \<le> p * c then (m / p ^ 2) * (2 * p * (v / c) - (v / c) ^ 2)
                else (m / (1 - p) ^ 2) * ((1 - 2 * p) + 2 * p * (v / c) - (v / c) ^ 2))"
    using assms(2) by (simp add: spec_yc_def Let_def s(2,3,5,6,7) d1 d2 mc f_sub_def)
  show "spec_dyc m p c (Fin v) =
           Fin (if v \<le> p * c then (2 * m / p ^ 2) * (p - v / c)
                else (2 * m / (1 - p) ^ 2) * (p - v / c))"
    using assms(2) by (simp add: spec_dyc_def Let_def s(2,3,5) tm d3 d4 mc f_sub_def)
qed


lemma camber_scalars_finite_2412: "camber_scalars_finite (1/50) (2/5) 1"
proof -
  have "\<bar>r\<bar> \<le> 1 \<Longrightarrow> \<bar>r\<bar> < dbl_overflow" for r :: real
    using moderate_below_overflow [of r] one_le_power [of "2::real" 520] by linarith
  from this [of 1] have "2 < dbl_overflow"
    using dbl_overflow_bounds(1) power_increasing [of 1 1023 "2::real"] by simp
  then show ?thesis
    by (simp add: camber_scalars_finite_def camber_powers_ok_two_fifths power2_eq_square)
qed



text \<open>
  Claim C6. With \<open>p = 0\<close> the camber line and its slope are zero at every station. They come
  from the branch of line 29, not from the general formulas: those, evaluated at \<open>p = 0\<close>,
  divide by \<open>p\<^sup>2 = 0\<close> and raise.
\<close>

theorem camber_symmetric_case:
  "naca4_camber m 0 c x = Inr (replicate (length x) (Fin 0), replicate (length x) (Fin 0))
   \<and> camber_general m 0 c x = Inl ZeroDivisionError"
  by (simp add: naca4_camber_def np_zeros_like_def map_replicate_const camber_general_p_zero)

subsection \<open>The thickness distribution\<close>

lemma spec_yt_Fin:
  assumes "c \<noteq> 0" "0 \<le> v / c"
  shows "spec_yt t c (Fin v) = Fin ((t / 0.20) * c * thickness_poly (v / c))"
  using assms by (simp add: spec_yt_def thickness_poly_def f_sub_def Let_def)




subsection \<open>Continuity of the camber line at the break\<close>

lemma yc_fore_break:
  assumes "camber_powers_ok p" "c \<noteq> 0"
  shows "yc_fore m p c [Fin (p * c)]
           = Inr [f_mul (py_float (m / p ^ 2)) (Fin (2 * p * p - p ^ 2))]"
proof -
  note s = powers_ok_scalars [OF assms(1)]
  have nz: "Fin (p ^ 2) \<noteq> Fin 0" using s(8) by simp
  have d: "py_truediv (Fin m) (Fin (p ^ 2)) = Inr (py_float (m / p ^ 2))"
    using s(8) by (simp add: py_truediv_def float_div_def)
  show ?thesis
    using assms(2) by (simp add: yc_fore_def s(1,6) d np_defs f_sub_def)
qed

lemma yc_aft_break:
  assumes "camber_powers_ok p" "c \<noteq> 0"
  shows "yc_aft m p c [Fin (p * c)]
           = Inr [f_mul (py_float (m / (1 - p) ^ 2))
                    (Fin ((1 - 2 * p) + 2 * p * p - p ^ 2))]"
proof -
  note s = powers_ok_scalars [OF assms(1)]
  have d: "py_truediv (Fin m) (Fin ((1 - p) ^ 2)) = Inr (py_float (m / (1 - p) ^ 2))"
    using s(9) by (simp add: py_truediv_def float_div_def)
  show ?thesis
    using assms(2) by (simp add: yc_aft_def s(3,4,6,7) d np_defs f_sub_def)
qed

text \<open>
  Claim C8, as amended. For \<open>p\<close> in the open interval \<open>(0, 1)\<close> and every \<open>m\<close> such that
  \<^verbatim>\<open>p**2\<close> and \<^verbatim>\<open>(1 - p)**2\<close> are floats other than \<open>0.0\<close> and the coefficients
  \<^verbatim>\<open>m / p**2\<close> and \<^verbatim>\<open>m / (1 - p)**2\<close> are finite, the two arrays of lines 34 and 35 agree
  at the station \<open>x = p * c\<close>: there \<open>x / c = p\<close>, and
  \<open>(m / p\<^sup>2) * (2 * p * p - p\<^sup>2) = (m / (1 - p)\<^sup>2) * ((1 - 2 * p) + 2 * p * p - p\<^sup>2)\<close>.
\<close>

theorem camber_break_continuous:
  assumes "0 < p" and "p < 1" and "c \<noteq> 0" and "camber_powers_ok p"
    and "\<bar>m / p ^ 2\<bar> < dbl_overflow" and "\<bar>m / (1 - p) ^ 2\<bar> < dbl_overflow"
  shows "yc_fore m p c [Fin (p * c)] = Inr [Fin ((m / p ^ 2) * (2 * p * p - p ^ 2))]
       \<and> yc_aft m p c [Fin (p * c)]
           = Inr [Fin ((m / (1 - p) ^ 2) * ((1 - 2 * p) + 2 * p * p - p ^ 2))]
       \<and> (m / p ^ 2) * (2 * p * p - p ^ 2)
           = (m / (1 - p) ^ 2) * ((1 - 2 * p) + 2 * p * p - p ^ 2)"
proof -
  have a: "(m / p ^ 2) * (2 * p * p - p ^ 2) = m"
    using assms by (simp add: power2_eq_square)
  have "(1 - 2 * p) + 2 * p * p - p ^ 2 = (1 - p) ^ 2"
    by (simp add: power2_eq_square algebra_simps)
  then have b: "(m / (1 - p) ^ 2) * ((1 - 2 * p) + 2 * p * p - p ^ 2) = m"
    using assms by simp
  have f: "yc_fore m p c [Fin (p * c)] = Inr [Fin ((m / p ^ 2) * (2 * p * p - p ^ 2))]"
    unfolding yc_fore_break [OF assms(4,3)] py_float_Fin [OF assms(5)] by simp
  have g: "yc_aft m p c [Fin (p * c)]
           = Inr [Fin ((m / (1 - p) ^ 2) * ((1 - 2 * p) + 2 * p * p - p ^ 2))]"
    unfolding yc_aft_break [OF assms(4,3)] py_float_Fin [OF assms(6)] by simp
  show ?thesis using a b f g by simp
qed

lemma unit_below_overflow: "\<bar>r\<bar> \<le> 1 \<Longrightarrow> \<bar>r\<bar> < dbl_overflow"
  using moderate_below_overflow [of r] one_le_power [of "2::real" 520] by linarith

text \<open>NACA 2412: both formulas give the maximum camber 0.02 at 40 percent of the chord.\<close>

theorem camber_break_continuous_witness:
  "yc_fore (1/50) (2/5) 1 [Fin (2/5)] = Inr [Fin (1/50)]
   \<and> yc_aft (1/50) (2/5) 1 [Fin (2/5)] = Inr [Fin (1/50)]"
proof -
  have h1: "\<bar>(1/50) / (2/5) ^ 2\<bar> < dbl_overflow"
    by (rule unit_below_overflow) (simp add: power2_eq_square)
  have h2: "\<bar>(1/50) / (1 - 2/5) ^ 2\<bar> < dbl_overflow"
    by (rule unit_below_overflow) (simp add: power2_eq_square)
  show ?thesis
    using camber_break_continuous [OF _ _ _ camber_powers_ok_two_fifths h1 h2, of 1]
    by (simp add: power2_eq_square)
qed

text \<open>A camber position of \<open>1e-155\<close>: its square is a float, the coefficient is not.\<close>

lemma camber_powers_ok_tiny: "camber_powers_ok (1 / 10 ^ 155)"
  by (simp add: camber_powers_ok_def dbl_underflow_def dbl_overflow_def power_divide)

lemma fore_coefficient_tiny: "py_float ((1/50) / (1 / 10 ^ 155) ^ 2) = PInf"
  by (simp add: py_float_def dbl_overflow_def power_divide)

lemma aft_coefficient_tiny:
  "py_float ((1/50) / (1 - 1 / 10 ^ 155) ^ 2) = Fin ((1/50) / (1 - 1 / 10 ^ 155) ^ 2)"
proof -
  have "\<bar>(1/50) / (1 - 1 / 10 ^ 155) ^ 2\<bar> < dbl_overflow"
    by (simp add: dbl_overflow_def power_divide field_simps)
  then show ?thesis by (rule py_float_Fin)
qed

lemma yc_fore_break_overflow:
  assumes "camber_powers_ok p" "c \<noteq> 0" "py_float (m / p ^ 2) = PInf"
  shows "yc_fore m p c [Fin (p * c)] = Inr [PInf]"
proof -
  have "2 * p * p - p ^ 2 = p ^ 2" by (simp add: power2_eq_square)
  moreover have "0 < p ^ 2" using powers_ok_scalars(8) [OF assms(1)] by simp
  ultimately have "0 < 2 * p * p - p ^ 2" by (simp only:)
  then show ?thesis
    unfolding yc_fore_break [OF assms(1,2)] assms(3) by simp
qed

lemma yc_aft_break_finite:
  assumes "camber_powers_ok p" "c \<noteq> 0"
    and "py_float (m / (1 - p) ^ 2) = Fin (m / (1 - p) ^ 2)"
  shows "yc_aft m p c [Fin (p * c)] = Inr [Fin m]"
proof -
  have "(1 - 2 * p) + 2 * p * p - p ^ 2 = (1 - p) ^ 2"
    by (simp add: power2_eq_square algebra_simps)
  moreover have "(1 - p) ^ 2 \<noteq> 0" using powers_ok_scalars(9) [OF assms(1)] by simp
  ultimately have "m / (1 - p) ^ 2 * ((1 - 2 * p) + 2 * p * p - p ^ 2) = m"
    by (simp del: power_eq_0_iff zero_eq_power2)
  then show ?thesis
    unfolding yc_aft_break [OF assms(1,2)] assms(3) by (simp only: f_mul.simps)
qed

text \<open>
  The claim as stated fails at \<open>p = 1e-155\<close>, \<open>m = 0.02\<close>: \<^verbatim>\<open>p**2\<close> is the float \<open>1e-310\<close>,
  the coefficient \<^verbatim>\<open>m / p**2\<close> overflows to \<open>inf\<close>, and at the break the first formula gives
  \<open>inf\<close> where the second gives 0.02.
\<close>

theorem camber_break_counterexample:
  "yc_fore (1/50) (1 / 10 ^ 155) 1 [Fin (1 / 10 ^ 155 * 1)] = Inr [PInf]
   \<and> yc_aft (1/50) (1 / 10 ^ 155) 1 [Fin (1 / 10 ^ 155 * 1)] = Inr [Fin (1/50)]"
proof (rule conjI)
  have one: "(1::real) \<noteq> 0" by simp
  show "yc_fore (1/50) (1 / 10 ^ 155) 1 [Fin (1 / 10 ^ 155 * 1)] = Inr [PInf]"
    by (rule yc_fore_break_overflow [OF camber_powers_ok_tiny one fore_coefficient_tiny])
  show "yc_aft (1/50) (1 / 10 ^ 155) 1 [Fin (1 / 10 ^ 155 * 1)] = Inr [Fin (1/50)]"
    by (rule yc_aft_break_finite [OF camber_powers_ok_tiny one aft_coefficient_tiny])
qed


subsection \<open>The two surfaces\<close>

text \<open>
  Claim C4. For every call that returns, and at every station, the surfaces are built from
  the camber line \<open>yc\<close>, the thickness \<open>yt\<close> and the camber slope \<open>dyc/dx\<close> of that call by
  \<open>\<theta> = arctan (dyc/dx)\<close>, \<open>y_upper = yc + yt * cos \<theta>\<close> and \<open>y_lower = yc - yt * cos \<theta>\<close>.
\<close>

theorem surfaces_from_camber_and_thickness:
  assumes "naca4 m p t c n = Inr (x, yu, yl)"
  shows "\<exists>yc dyc. naca4_camber m p c x = Inr (yc, dyc)
           \<and> length yc = length x \<and> length dyc = length x
           \<and> length yu = length x \<and> length yl = length x
           \<and> (\<forall>i<length x.
                 yu ! i = f_add (yc ! i)
                            (f_mul (naca4_yt t c x ! i) (f_cos (f_arctan (dyc ! i))))
               \<and> yl ! i = f_sub (yc ! i)
                            (f_mul (naca4_yt t c x ! i) (f_cos (f_arctan (dyc ! i)))))"
proof -
  note d = naca4_Inr_D [OF assms]
  have "\<forall>i<length x.
          yu ! i = f_add (map (\<lambda>v. fst (spec_camber m p c v)) x ! i)
                     (f_mul (naca4_yt t c x ! i)
                        (f_cos (f_arctan (map (\<lambda>v. snd (spec_camber m p c v)) x ! i))))
        \<and> yl ! i = f_sub (map (\<lambda>v. fst (spec_camber m p c v)) x ! i)
                     (f_mul (naca4_yt t c x ! i)
                        (f_cos (f_arctan (map (\<lambda>v. snd (spec_camber m p c v)) x ! i))))"
    by (simp add: d(3) d(4) naca4_yt_map spec_upper_eq spec_lower_eq)
  moreover have "length yu = length x" "length yl = length x"
    by (simp_all add: d(3) d(4))
  ultimately show ?thesis using d(5) by simp
qed

text \<open>NACA 2412 on two stations, at the trailing edge.\<close>

theorem surfaces_from_camber_and_thickness_witness:
  "\<exists>x yu yl yc dyc.
      naca4 (1/50) (2/5) (3/25) 1 2 = Inr (x, yu, yl)
    \<and> naca4_camber (1/50) (2/5) 1 x = Inr (yc, dyc)
    \<and> yu ! 1 = f_add (yc ! 1) (f_mul (naca4_yt (3/25) 1 x ! 1) (f_cos (f_arctan (dyc ! 1))))
    \<and> yl ! 1 = f_sub (yc ! 1) (f_mul (naca4_yt (3/25) 1 x ! 1) (f_cos (f_arctan (dyc ! 1))))"
proof -
  obtain x yu yl where r: "naca4 (1/50) (2/5) (3/25) 1 2 = Inr (x, yu, yl)"
    using naca4_Inr_ex [of 2 "2/5" "1/50" "3/25" 1] camber_powers_ok_two_fifths by auto
  have "length x = 2"
    using naca4_Inr_D(2) [OF r] by (simp add: length_spec_stations)
  then show ?thesis
    using surfaces_from_camber_and_thickness [OF r] r by auto
qed

subsection \<open>The symmetric airfoil\<close>

lemma spec_upper_symmetric: "spec_upper m 0 t c v = spec_yt t c v"
  by (simp add: spec_upper_eq spec_camber_def f_mul_one_right f_add_zero_left)

lemma spec_lower_symmetric: "spec_lower m 0 t c v = f_neg (spec_yt t c v)"
  by (simp add: spec_lower_eq spec_camber_def f_mul_one_right f_sub_zero_left)

lemma station_ratio:
  assumes "c \<noteq> 0" "i < nat n"
  shows "real i / (real_of_int n - 1) * c / c = real i / (real_of_int n - 1)"
    and "0 \<le> real i / (real_of_int n - 1)"
    and "real i / (real_of_int n - 1) \<le> 1"
proof -
  show "real i / (real_of_int n - 1) * c / c = real i / (real_of_int n - 1)"
    using assms by simp
  have le: "real i \<le> real_of_int n - 1" using assms by linarith
  have "0 \<le> real i" by simp
  with le have nn: "0 \<le> real_of_int n - 1" by linarith
  then show "0 \<le> real i / (real_of_int n - 1)" by simp
  show "real i / (real_of_int n - 1) \<le> 1"
  proof (cases "real_of_int n - 1 = 0")
    case True
    then show ?thesis by simp
  next
    case False
    with nn have "0 < real_of_int n - 1" by linarith
    then show ?thesis using le by (simp only: divide_le_eq_1_pos)
  qed
qed

lemma spec_yt_station:
  assumes "c \<noteq> 0" "i < nat n"
  shows "spec_yt t c (spec_stations c n ! i)
           = Fin ((t / 0.20) * c * thickness_poly (real i / (real_of_int n - 1)))"
  using assms station_ratio [OF assms] spec_yt_Fin [of c "real i / (real_of_int n - 1) * c" t]
  by (simp add: nth_spec_stations)

text \<open>
  Claim C7, as amended. For every call with \<open>p = 0\<close> that returns, with a chord \<open>c \<noteq> 0\<close>
  and a finite scalar factor \<open>(t / 0.20) * c\<close>, and whatever \<open>m\<close> and \<open>n\<close> are, the comparison
  \<open>y_upper[i] == -y_lower[i]\<close> holds at every station index \<open>i\<close>.
\<close>

theorem symmetric_airfoil:
  assumes "naca4 m 0 t c n = Inr (x, yu, yl)"
    and "c \<noteq> 0" and "thickness_factor_finite t c"
  shows "length yu = length x \<and> length yl = length x
       \<and> (\<forall>i<length x. f_eq (yu ! i) (f_neg (yl ! i)))"
proof -
  note d = naca4_Inr_D [OF assms(1)]
  have len: "length x = nat n" by (simp add: d(2) length_spec_stations)
  have u: "yu = map (spec_yt t c) x"
    using d(3) by (simp add: spec_upper_symmetric)
  have l: "yl = map (\<lambda>v. f_neg (spec_yt t c v)) x"
    using d(4) by (simp add: spec_lower_symmetric)
  have "f_eq (yu ! i) (f_neg (yl ! i))" if "i < length x" for i
  proof -
    from that len have i: "i < nat n" by simp
    have "spec_yt t c (x ! i)
            = Fin ((t / 0.20) * c * thickness_poly (real i / (real_of_int n - 1)))"
      using spec_yt_station [OF assms(2) i] by (simp add: d(2))
    then show ?thesis using that by (simp add: u l)
  qed
  moreover have "length yu = length x" "length yl = length x"
    by (simp_all add: u l)
  ultimately show ?thesis by blast
qed


lemma thickness_factor_finite_0012: "thickness_factor_finite (3/25) 1"
  unfolding thickness_factor_finite_def
  by (intro conjI unit_below_overflow) simp_all

text \<open>A unit chord with two stations.\<close>

theorem symmetric_airfoil_witness:
  "\<exists>x yu yl. naca4 (1/50) 0 (3/25) 1 2 = Inr (x, yu, yl)
     \<and> f_eq (yu ! 0) (f_neg (yl ! 0)) \<and> f_eq (yu ! 1) (f_neg (yl ! 1))"
proof -
  obtain x yu yl where r: "naca4 (1/50) 0 (3/25) 1 2 = Inr (x, yu, yl)"
    using naca4_Inr_ex [of 2 0 "1/50" "3/25" 1] by auto
  have "length x = 2"
    using naca4_Inr_D(2) [OF r] by (simp add: length_spec_stations)
  moreover have "(1::real) \<noteq> 0" by simp
  ultimately show ?thesis
    using symmetric_airfoil [OF r _ thickness_factor_finite_0012] r by auto
qed

text \<open>
  The claim as stated fails at \<open>c = 0\<close>: every ordinate is \<open>nan\<close>, and \<open>nan == -nan\<close> is
  false.
\<close>

theorem symmetric_zero_chord_counterexample:
  "\<not> f_eq (fst (snd (projr (naca4 (1/50) 0 (3/25) 0 3))) ! 0)
          (f_neg (snd (snd (projr (naca4 (1/50) 0 (3/25) 0 3))) ! 0))"
proof -
  have "naca4 (1/50) 0 (3/25) 0 3
      = Inr (replicate 3 (Fin 0), replicate 3 NaN, replicate 3 NaN)"
    by (simp add: naca4_stations spec_stations_zero_chord spec_upper_zero_chord
        spec_lower_zero_chord)
  then show ?thesis by simp
qed

subsection \<open>Stations and lengths\<close>

text \<open>
  Claim C9. For every call with \<open>n \<ge> 2\<close> that returns, the three sequences have length \<open>n\<close>,
  the stations are \<open>x_i = i / (n - 1) * c\<close> for \<open>i\<close> from 0 to \<open>n - 1\<close>, in particular
  \<open>x[0] = 0\<close> and \<open>x[n - 1] = c\<close>, and the ordinates are aligned with the stations:
  \<open>y_upper[i]\<close> and \<open>y_lower[i]\<close> are the upper and the lower ordinate of station \<open>x[i]\<close>.
\<close>

theorem stations_evenly_spaced:
  assumes "2 \<le> n" and "naca4 m p t c n = Inr (x, yu, yl)"
  shows "length x = nat n \<and> length yu = nat n \<and> length yl = nat n
       \<and> (\<forall>i<nat n. x ! i = Fin (real i / (real_of_int n - 1) * c))
       \<and> x ! 0 = Fin 0 \<and> x ! (nat n - 1) = Fin c
       \<and> (\<forall>i<nat n. yu ! i = spec_upper m p t c (x ! i)
                    \<and> yl ! i = spec_lower m p t c (x ! i))"
proof -
  note d = naca4_Inr_D [OF assms(2)]
  have len: "length x = nat n" by (simp add: d(2) length_spec_stations)
  have nth: "x ! i = Fin (real i / (real_of_int n - 1) * c)" if "i < nat n" for i
    using that by (simp add: d(2) nth_spec_stations)
  have "x ! 0 = Fin 0" using nth [of 0] assms(1) by simp
  moreover have "x ! (nat n - 1) = Fin c"
  proof -
    have "real (nat n - 1) = real_of_int n - 1" using assms(1) by simp
    moreover have "real_of_int n - 1 \<noteq> 0" using assms(1) by simp
    ultimately show ?thesis using nth [of "nat n - 1"] assms(1) by simp
  qed
  moreover have "length yu = nat n" "length yl = nat n"
    using len d(3) d(4) by simp_all
  moreover have "yu ! i = spec_upper m p t c (x ! i) \<and> yl ! i = spec_lower m p t c (x ! i)"
    if "i < nat n" for i
  proof -
    from that len have "i < length x" by simp
    then have "map (spec_upper m p t c) x ! i = spec_upper m p t c (x ! i)"
      "map (spec_lower m p t c) x ! i = spec_lower m p t c (x ! i)"
      by simp_all
    then show ?thesis using d(3) d(4) by simp
  qed
  ultimately show ?thesis using len nth by blast
qed

text \<open>Three stations on a chord of length 2.\<close>

theorem stations_evenly_spaced_witness:
  "\<exists>x yu yl. naca4 (1/50) (2/5) (3/25) 2 3 = Inr (x, yu, yl)
     \<and> length x = 3 \<and> length yu = 3 \<and> length yl = 3
     \<and> x ! 0 = Fin 0 \<and> x ! 1 = Fin 1 \<and> x ! 2 = Fin 2
     \<and> yu ! 1 = spec_upper (1/50) (2/5) (3/25) 2 (Fin 1)
     \<and> yl ! 1 = spec_lower (1/50) (2/5) (3/25) 2 (Fin 1)"
proof -
  obtain x yu yl where r: "naca4 (1/50) (2/5) (3/25) 2 3 = Inr (x, yu, yl)"
    using naca4_Inr_ex [of 3 "2/5" "1/50" "3/25" 2] camber_powers_ok_two_fifths by auto
  have "(2::int) \<le> 3" by simp
  from stations_evenly_spaced [OF this r] r show ?thesis by auto
qed


subsection \<open>The surfaces never cross\<close>

text \<open>
  The bracket of the thickness formula is nonnegative on \<open>[0, 1]\<close>. With \<open>s = sqrt u\<close> it is
  \<open>s * q s\<close>, where \<open>q\<close> is a polynomial with \<open>q 1 = 0.0021\<close> and \<open>q s - q 1 = (1 - s) * b s\<close>
  for a polynomial \<open>b\<close> that is positive on \<open>[0, 1]\<close>.
\<close>

lemma poly_factor:
  fixes s :: real
  shows "0.2969 - 0.1260 * s - 0.3516 * s ^ 3 + 0.2843 * s ^ 5 - 0.1015 * s ^ 7
       = 0.0021 + (1 - s) * (0.2948 + 0.1688 * (s + s ^ 2) - 0.1828 * (s ^ 3 + s ^ 4)
                              + 0.1015 * (s ^ 5 + s ^ 6))"
  by algebra

lemma lin_bracket:
  fixes s q a b e f :: real
  assumes "0 \<le> s" "s \<le> 1" "0 \<le> q" "q \<le> 1" "a \<le> s" "b \<le> q" "0 \<le> e" "0 \<le> f"
  shows "0 \<le> 0.2948 + 0.1688 * (s + q) - 0.1828 * (a + b) + 0.1015 * (e + f)"
proof -
  have "0 \<le> 2948 + 1688 * s + 1688 * q - 1828 * a - 1828 * b + 1015 * e + 1015 * f"
    using assms by linarith
  then have "0 \<le> (2948 + 1688 * s + 1688 * q - 1828 * a - 1828 * b + 1015 * e + 1015 * f)
                   / 10000"
    by simp
  also have "(2948 + 1688 * s + 1688 * q - 1828 * a - 1828 * b + 1015 * e + 1015 * f) / 10000
           = 0.2948 + 0.1688 * (s + q) - 0.1828 * (a + b) + 0.1015 * (e + f)"
    by algebra
  finally show ?thesis .
qed

lemma poly_bracket:
  fixes s :: real
  assumes "0 \<le> s" "s \<le> 1"
  shows "0 \<le> 0.2948 + 0.1688 * (s + s ^ 2) - 0.1828 * (s ^ 3 + s ^ 4)
             + 0.1015 * (s ^ 5 + s ^ 6)"
proof -
  have s2: "s ^ 2 \<le> 1" using assms by (simp add: power_le_one)
  have s3: "s ^ 3 \<le> s" using assms power_decreasing [of 1 3 s] by simp
  have s4: "s ^ 4 \<le> s ^ 2" using assms power_decreasing [of 2 4 s] by simp
  have s5: "0 \<le> s ^ 5" and s6: "0 \<le> s ^ 6" using assms by simp_all
  have s2': "0 \<le> s ^ 2" by simp
  show ?thesis using s2 s3 s4 s5 s6 s2' assms by (intro lin_bracket)
qed

lemma poly_q_pos:
  fixes s :: real
  assumes "0 \<le> s" "s \<le> 1"
  shows "0 \<le> 0.2969 - 0.1260 * s - 0.3516 * s ^ 3 + 0.2843 * s ^ 5 - 0.1015 * s ^ 7"
proof -
  have "0 \<le> (1 - s) * (0.2948 + 0.1688 * (s + s ^ 2) - 0.1828 * (s ^ 3 + s ^ 4)
                              + 0.1015 * (s ^ 5 + s ^ 6))"
    using assms poly_bracket [OF assms] by (intro mult_nonneg_nonneg) simp_all
  then show ?thesis unfolding poly_factor by simp
qed

lemma thickness_poly_nonneg:
  assumes "0 \<le> u" "u \<le> 1"
  shows "0 \<le> thickness_poly u"
proof -
  define s where "s = sqrt u"
  have s: "0 \<le> s" "s \<le> 1" using assms by (simp_all add: s_def)
  have u: "u = s ^ 2" using assms by (simp add: s_def)
  have sq: "sqrt (s ^ 2) = s" using s by simp
  have "thickness_poly (s ^ 2)
          = s * (0.2969 - 0.1260 * s - 0.3516 * s ^ 3 + 0.2843 * s ^ 5 - 0.1015 * s ^ 7)"
    unfolding thickness_poly_def sq by algebra
  moreover have "0 \<le> s * (0.2969 - 0.1260 * s - 0.3516 * s ^ 3 + 0.2843 * s ^ 5
                           - 0.1015 * s ^ 7)"
    using s poly_q_pos [OF s] by (intro mult_nonneg_nonneg) simp_all
  ultimately show ?thesis unfolding u by simp
qed

lemma spec_camber_Fin:
  assumes "p = 0 \<or> camber_scalars_finite m p c" "c \<noteq> 0"
  shows "\<exists>a b. spec_camber m p c (Fin v) = (Fin a, Fin b)"
proof (cases "p = 0")
  case True
  then show ?thesis by (simp add: spec_camber_def)
next
  case False
  with assms(1) have "camber_scalars_finite m p c" by simp
  from spec_camber_finite [OF this assms(2), of v] False show ?thesis
    by (simp add: spec_camber_def)
qed

lemma cos_arctan_pos: "0 < cos (arctan (b::real))"
  using arctan_lbound [of b] arctan_ubound [of b] by (intro cos_gt_zero_pi) simp_all

lemma station_surfaces_ordered:
  assumes "0 \<le> t" "0 < c" "i < nat n" "p = 0 \<or> camber_scalars_finite m p c"
  shows "f_le (spec_lower m p t c (spec_stations c n ! i))
              (spec_upper m p t c (spec_stations c n ! i))"
proof -
  from assms have c: "c \<noteq> 0" by simp
  define v where "v = real i / (real_of_int n - 1) * c"
  define y where "y = (t / 0.20) * c * thickness_poly (real i / (real_of_int n - 1))"
  have st: "spec_stations c n ! i = Fin v"
    using assms(3) by (simp add: nth_spec_stations v_def)
  obtain a b where ab: "spec_camber m p c (Fin v) = (Fin a, Fin b)"
    using spec_camber_Fin [OF assms(4) c] by blast
  have yt: "spec_yt t c (Fin v) = Fin y"
    using spec_yt_station [OF c assms(3), of t] by (simp add: st y_def)
  have "0 \<le> thickness_poly (real i / (real_of_int n - 1))"
    using station_ratio(2,3) [OF c assms(3)] by (rule thickness_poly_nonneg)
  moreover have "0 \<le> (t / 0.20) * c" using assms by simp
  ultimately have y: "0 \<le> y" unfolding y_def by (rule mult_nonneg_nonneg [rotated])
  have "0 \<le> y * cos (arctan b)"
    using y cos_arctan_pos [of b] by (intro mult_nonneg_nonneg) simp_all
  then show ?thesis
    by (simp add: st spec_upper_eq spec_lower_eq ab yt f_sub_def)
qed

text \<open>
  Claim C10, as amended. For every call with \<open>t \<ge> 0\<close>, \<open>c > 0\<close>, \<open>p\<close> in \<open>[0, 1)\<close> and
  \<open>n \<ge> 2\<close> in which the scalars stay in the float range (\<open>p = 0\<close>, or \<^verbatim>\<open>p**2\<close> and
  \<^verbatim>\<open>(1 - p)**2\<close> are floats other than \<open>0.0\<close> and \<^verbatim>\<open>2 * m\<close>, \<^verbatim>\<open>p * c\<close> and the
  coefficients \<^verbatim>\<open>2 * m / p**2\<close> and \<^verbatim>\<open>2 * m / (1 - p)**2\<close> are finite; and the factor
  \<open>(t / 0.20) * c\<close> is finite), the call returns and \<open>y_upper[i] \<ge> y_lower[i]\<close> at every
  station index \<open>i\<close>.
\<close>

theorem surfaces_never_cross:
  assumes "0 \<le> t" and "0 < c" and "0 \<le> p" and "p < 1" and "2 \<le> n"
    and "p = 0 \<or> camber_scalars_finite m p c" and "thickness_factor_finite t c"
  shows "\<exists>x yu yl. naca4 m p t c n = Inr (x, yu, yl)
           \<and> length yu = nat n \<and> length yl = nat n
           \<and> (\<forall>i<nat n. f_le (yl ! i) (yu ! i))"
proof -
  have n: "0 \<le> n" using assms by simp
  have ok: "p = 0 \<or> camber_powers_ok p"
    using assms(6) by (auto simp add: camber_scalars_finite_def)
  have "\<forall>i<nat n. f_le (map (spec_lower m p t c) (spec_stations c n) ! i)
                      (map (spec_upper m p t c) (spec_stations c n) ! i)"
    using station_surfaces_ordered [OF assms(1,2) _ assms(6)]
    by (simp add: length_spec_stations)
  then show ?thesis
    by (simp add: naca4_stations [OF n ok] length_spec_stations)
qed

text \<open>NACA 2412 on two stations.\<close>

theorem surfaces_never_cross_witness:
  "\<exists>x yu yl. naca4 (1/50) (2/5) (3/25) 1 2 = Inr (x, yu, yl)
     \<and> f_le (yl ! 0) (yu ! 0) \<and> f_le (yl ! 1) (yu ! 1)"
  using surfaces_never_cross [of "3/25" 1 "2/5" 2 "1/50"]
    camber_scalars_finite_2412 thickness_factor_finite_0012
  by (auto simp add: numeral_2_eq_2)

text \<open>An infinite coefficient at the leading edge: \<open>inf * 0\<close>.\<close>

lemma spec_yc_leading_edge_overflow:
  assumes "camber_powers_ok p" "0 < p" "0 < c" "\<bar>p * c\<bar> < dbl_overflow"
    and "py_float (m / p ^ 2) = PInf"
  shows "spec_yc m p c (Fin 0) = NaN"
proof -
  note s = powers_ok_scalars [OF assms(1)]
  have pc: "py_mul (Fin p) (Fin c) = Fin (p * c)"
    using assms(4) by (simp add: py_mul_def py_float_Fin)
  have le: "0 \<le> p * c" using assms(2,3) by simp
  have k: "float_div (Fin m) (Fin (p ^ 2)) = PInf"
    using s(8) assms(5) by (simp add: float_div_def)
  show ?thesis
    using assms(3) le by (simp add: spec_yc_def Let_def s(2) s(6) k pc f_sub_def)
qed

lemma naca4_leading_edge_nan:
  assumes "1 \<le> n" "camber_powers_ok p" "spec_yc m p c (Fin 0) = NaN"
  shows "snd (snd (projr (naca4 m p t c n))) ! 0 = NaN"
proof -
  have n: "0 \<le> n" "0 < nat n" using assms(1) by simp_all
  have p: "p \<noteq> 0" using powers_ok_scalars(8) [OF assms(2)] .
  have st: "spec_stations c n ! 0 = Fin 0"
    using n(2) by (simp add: nth_spec_stations)
  have cam: "fst (spec_camber m p c (Fin 0)) = NaN"
    using p assms(3) by (simp add: spec_camber_def)
  have low: "spec_lower m p t c (Fin 0) = NaN"
    unfolding spec_lower_eq cam by (simp add: f_sub_def)
  show ?thesis
    unfolding naca4_stations [OF n(1) disjI2 [OF assms(2)]]
    using n(2) by (simp add: length_spec_stations st low)
qed

text \<open>
  The claim as stated fails for \<open>p\<close> in \<open>[0, 1)\<close> close to zero: with \<open>p = 1e-200\<close> the call
  raises \<^verbatim>\<open>ZeroDivisionError\<close>, and with \<open>p = 1e-155\<close> the coefficient \<^verbatim>\<open>m / p**2\<close> is
  \<open>inf\<close>, the camber line at the leading edge is \<open>inf * 0 = nan\<close>, and
  \<open>y_upper[0] >= y_lower[0]\<close> is false.
\<close>

theorem surfaces_cross_counterexample:
  "naca4 (1/50) (1 / 10 ^ 200) (3/25) 1 2 = Inl ZeroDivisionError
   \<and> \<not> f_le (snd (snd (projr (naca4 (1/50) (1 / 10 ^ 155) (3/25) 1 2))) ! 0)
            (fst (snd (projr (naca4 (1/50) (1 / 10 ^ 155) (3/25) 1 2))) ! 0)"
proof (rule conjI)
  show "naca4 (1/50) (1 / 10 ^ 200) (3/25) 1 2 = Inl ZeroDivisionError"
    by (rule naca4_underflow [OF _ _ tiny_square_underflows]) simp_all
  have pos: "(0::real) < 1 / 10 ^ 155" "(0::real) < 1" by simp_all
  have pc: "\<bar>1 / 10 ^ 155 * (1::real)\<bar> < dbl_overflow"
    by (rule unit_below_overflow) simp
  have yc: "spec_yc (1/50) (1 / 10 ^ 155) 1 (Fin 0) = NaN"
    by (rule spec_yc_leading_edge_overflow
        [OF camber_powers_ok_tiny pos pc fore_coefficient_tiny])
  have "(1::int) \<le> 2" by simp
  from naca4_leading_edge_nan [OF this camber_powers_ok_tiny yc]
  have "snd (snd (projr (naca4 (1/50) (1 / 10 ^ 155) (3/25) 1 2))) ! 0 = NaN" .
  then show "\<not> f_le (snd (snd (projr (naca4 (1/50) (1 / 10 ^ 155) (3/25) 1 2))) ! 0)
            (fst (snd (projr (naca4 (1/50) (1 / 10 ^ 155) (3/25) 1 2))) ! 0)"
    by (simp only: f_le.simps not_False_eq_True)
qed

subsection \<open>NACA 0012 on five stations\<close>

lemma spec_stations_five:
  "spec_stations 1 5 = [Fin 0, Fin 0.25, Fin 0.5, Fin 0.75, Fin 1]"
  by (simp add: spec_stations_def upt_conv_Cons)

lemma sqrt_quarter: "sqrt (1 / 4) = 1 / 2"
  by (simp add: real_sqrt_divide)

lemma thickness_poly_quarter: "thickness_poly (1 / 4) = 0.099020703125"
  by (simp add: thickness_poly_def sqrt_quarter power_divide)

lemma spec_yt_quarter: "spec_yt 0.12 1 (Fin 0.25) = Fin 0.059412421875"
  using spec_yt_Fin [of 1 "1/4" "0.12"] by (simp add: thickness_poly_quarter)

text \<open>
  Claim C3, as amended. The call \<open>naca4(m=0, p=0, t=0.12, c=1, n=5)\<close> returns
  \<open>x = [0, 0.25, 0.5, 0.75, 1.0]\<close>, \<open>y_lower\<close> is the negation of \<open>y_upper\<close> at every station,
  and \<open>y_upper\<close> at \<open>x = 0.25\<close> is \<open>0.059412421875\<close>, that is 0.0594 to four decimal places.
\<close>

theorem naca0012_five_stations:
  "\<exists>yu yl. naca4 0 0 0.12 1 5 = Inr ([Fin 0, Fin 0.25, Fin 0.5, Fin 0.75, Fin 1], yu, yl)
     \<and> length yu = 5 \<and> yl = map f_neg yu
     \<and> yu ! 1 = Fin 0.059412421875
     \<and> \<bar>0.059412421875 - 0.0594\<bar> < (0.00005 :: real)"
  by (simp add: naca4_stations spec_upper_symmetric spec_lower_symmetric
      spec_stations_five [simplified] spec_yt_quarter [simplified])

text \<open>
  The claim as stated gives 0.0586 for \<open>y_upper\<close> at \<open>x = 0.25\<close>. The thickness formula with
  \<open>t = 0.12\<close> gives \<open>0.6 * 0.099020703125\<close> there, which differs from 0.0586 by more than
  0.0008.
\<close>

theorem naca0012_quarter_chord_counterexample:
  "fst (snd (projr (naca4 0 0 0.12 1 5))) ! 1 = Fin 0.059412421875
   \<and> \<not> \<bar>(0.059412421875 :: real) - 0.0586\<bar> \<le> 0.0005"
  by (simp add: naca4_stations spec_upper_symmetric
      spec_stations_five [simplified] spec_yt_quarter [simplified])

end
